theory Spec2Isabelle
  imports Complex_Main
begin

section \<open>The bigint primitives used by the class\<close>

text \<open>
  The two ways an operation of \<^verbatim>\<open>src/index.ts\<close> can throw: the constructor's
  \<^verbatim>\<open>throw new Error("Denominator can't be zero")\<close>, which the specification calls
  \<^verbatim>\<open>InvalidDenominator\<close>, and the \<^verbatim>\<open>RangeError\<close> that the \<^verbatim>\<open>/\<close> operator of
  JavaScript raises on a zero \<^verbatim>\<open>bigint\<close> divisor.
\<close>

datatype error = InvalidDenominator | RangeError

text \<open>
  A \<^verbatim>\<open>bigint\<close> is an unbounded integer, so it is \<^typ>\<open>int\<close>. The operator \<^verbatim>\<open>/\<close>
  on two of them truncates towards zero and throws on a zero divisor.
\<close>

definition bigint_div :: "int \<Rightarrow> int \<Rightarrow> error + int" where
  "bigint_div a b =
     (if b = 0 then Inl RangeError else Inr (sgn a * sgn b * (\<bar>a\<bar> div \<bar>b\<bar>)))"

text \<open>
  Modelled from the spec: the function \<^verbatim>\<open>gcd\<close> imported from the package
  \<^verbatim>\<open>big-integer\<close> is not part of the sources. The specification describes it as the
  greatest-common-divisor function of the integer collaborator, for which any correct
  routine may be substituted; it is taken here as the greatest common divisor of the
  two integers, which is never negative.
\<close>

definition big_integer_gcd :: "int \<Rightarrow> int \<Rightarrow> int" where
  "big_integer_gcd a b = gcd a b"

text \<open>An exception thrown by the first computation is the outcome of the whole.\<close>

definition and_then :: "error + 'a \<Rightarrow> ('a \<Rightarrow> error + 'b) \<Rightarrow> error + 'b" where
  "and_then m f = (case m of Inl e \<Rightarrow> Inl e | Inr x \<Rightarrow> f x)"


section \<open>The class \<^verbatim>\<open>BigRational\<close>\<close>

record BigRational =
  numerator :: int
  denominator :: int

text \<open>The constructor: it throws on a zero denominator and stores the pair otherwise.\<close>

definition new_BigRational :: "int \<Rightarrow> int \<Rightarrow> error + BigRational" where
  "new_BigRational n d =
     (if d = 0 then Inl InvalidDenominator
      else Inr \<lparr>numerator = n, denominator = d\<rparr>)"

text \<open>
  The fields are private and set by the constructor alone, so the instances that exist
  are the records with a nonzero denominator.
\<close>

definition valid :: "BigRational \<Rightarrow> bool" where
  "valid r = (denominator r \<noteq> 0)"

definition getNumerator :: "BigRational \<Rightarrow> int" where
  "getNumerator this = numerator this"

definition getDenominator :: "BigRational \<Rightarrow> int" where
  "getDenominator this = denominator this"

definition toPair :: "BigRational \<Rightarrow> int \<times> int" where
  "toPair this = (numerator this, denominator this)"

definition abs_br :: "BigRational \<Rightarrow> error + BigRational" where
  "abs_br this =
     (let abs = (\<lambda>n::int. if n \<ge> 0 then n else - n)
      in new_BigRational (abs (numerator this)) (abs (denominator this)))"

definition negate :: "BigRational \<Rightarrow> error + BigRational" where
  "negate this = new_BigRational (- numerator this) (denominator this)"

definition add :: "BigRational \<Rightarrow> BigRational \<Rightarrow> error + BigRational" where
  "add this a =
     (case toPair a of (numerator', denominator') \<Rightarrow>
        let resultingNumerator = numerator' * denominator this + numerator this * denominator';
            resultingDenominator = denominator this * denominator'
        in new_BigRational resultingNumerator resultingDenominator)"

definition subtract :: "BigRational \<Rightarrow> BigRational \<Rightarrow> error + BigRational" where
  "subtract this a = and_then (negate a) (\<lambda>na. add this na)"

definition inverse_br :: "BigRational \<Rightarrow> error + BigRational" where
  "inverse_br this = new_BigRational (denominator this) (numerator this)"

definition mul :: "BigRational \<Rightarrow> BigRational \<Rightarrow> error + BigRational" where
  "mul this a =
     new_BigRational (numerator a * numerator this) (denominator a * denominator this)"

definition div_br :: "BigRational \<Rightarrow> BigRational \<Rightarrow> error + BigRational" where
  "div_br this a = and_then (inverse_br a) (\<lambda>ia. mul this ia)"

definition lte :: "BigRational \<Rightarrow> BigRational \<Rightarrow> bool" where
  "lte this a =
     (case toPair a of (numerator', denominator') \<Rightarrow>
        let crossMultiplicationNegative =
              ((denominator' > 0 \<and> denominator this < 0) \<or>
               (denominator' < 0 \<and> denominator this > 0))
        in if crossMultiplicationNegative
           then numerator this * denominator' \<ge> numerator' * denominator this
           else numerator this * denominator' \<le> numerator' * denominator this)"

definition lt :: "BigRational \<Rightarrow> BigRational \<Rightarrow> bool" where
  "lt this a = (lte this a \<and> \<not> lte a this)"

definition eq :: "BigRational \<Rightarrow> BigRational \<Rightarrow> bool" where
  "eq this a = (lte this a \<and> lte a this)"

definition gte :: "BigRational \<Rightarrow> BigRational \<Rightarrow> bool" where
  "gte this a = lte a this"

definition gt :: "BigRational \<Rightarrow> BigRational \<Rightarrow> bool" where
  "gt this a = lt a this"

text \<open>
  The private static method \<^verbatim>\<open>gcd\<close>: the result of the imported function, printed and
  read back as a \<^verbatim>\<open>bigint\<close>, which is the same integer.
\<close>

definition gcd_br :: "int \<Rightarrow> int \<Rightarrow> int" where
  "gcd_br a b = big_integer_gcd a b"

text \<open>
  The two quotients are computed from left to right before the constructor runs.
\<close>

definition reduce :: "BigRational \<Rightarrow> error + BigRational" where
  "reduce this =
     (case toPair this of (numerator', denominator') \<Rightarrow>
        let divisor = gcd_br numerator' denominator'
        in and_then (bigint_div numerator' divisor) (\<lambda>n.
           and_then (bigint_div denominator' divisor) (\<lambda>d.
           new_BigRational n d)))"

definition isPositive :: "BigRational \<Rightarrow> bool" where
  "isPositive this =
     ((numerator this > 0 \<and> denominator this > 0) \<or>
      (numerator this < 0 \<and> denominator this < 0))"

definition isNegative :: "BigRational \<Rightarrow> bool" where
  "isNegative this = (numerator this \<noteq> 0 \<and> \<not> isPositive this)"

text \<open>
  The rational number that an instance stands for, in the words of the specification:
  the quotient of the numerator by the denominator.
\<close>

definition represented :: "BigRational \<Rightarrow> rat" where
  "represented r = Fract (numerator r) (denominator r)"


section \<open>Valid instances\<close>

lemma valid_iff_constructed:
  "valid r \<longleftrightarrow> (\<exists>n d. new_BigRational n d = Inr r)"
proof
  assume "valid r"
  then have "new_BigRational (numerator r) (denominator r) = Inr r"
    by (simp add: valid_def new_BigRational_def)
  then show "\<exists>n d. new_BigRational n d = Inr r" by blast
next
  assume "\<exists>n d. new_BigRational n d = Inr r"
  then obtain n d where "new_BigRational n d = Inr r" by blast
  then show "valid r"
    by (auto simp: valid_def new_BigRational_def split: if_splits)
qed

lemma new_BigRational_ok:
  "d \<noteq> 0 \<Longrightarrow> new_BigRational n d = Inr \<lparr>numerator = n, denominator = d\<rparr>"
  by (simp add: new_BigRational_def)

lemma new_BigRational_zero: "new_BigRational n 0 = Inl InvalidDenominator"
  by (simp add: new_BigRational_def)


section \<open>Construction\<close>

text \<open>
  C2. Construction fails with \<^verbatim>\<open>InvalidDenominator\<close> exactly when the denominator is
  zero. For every numerator and every nonzero denominator, of either sign, it succeeds,
  and the accessors of the new instance return the two arguments as they were given:
  nothing is reduced and no sign is moved.
\<close>

theorem construction_verbatim:
  "(new_BigRational n d = Inl InvalidDenominator \<longleftrightarrow> d = 0) \<and>
   ((\<exists>e. new_BigRational n d = Inl e) \<longleftrightarrow> d = 0) \<and>
   (d \<noteq> 0 \<longrightarrow>
      (\<exists>r. new_BigRational n d = Inr r \<and> getNumerator r = n \<and> getDenominator r = d))"
  by (simp add: new_BigRational_def getNumerator_def getDenominator_def)

theorem construction_verbatim_witness:
  "(-4::int) \<noteq> 0 \<and>
   (\<exists>r. new_BigRational 0 (-4) = Inr r \<and> getNumerator r = 0 \<and> getDenominator r = -4) \<and>
   new_BigRational 6 0 = Inl InvalidDenominator"
  using construction_verbatim [of 0 "-4"] construction_verbatim [of 6 0]
  by simp


section \<open>Comparison and the represented rational\<close>

text \<open>
  The comparison \<^verbatim>\<open>lte\<close> written with one test: the direction is reversed when the two
  denominators are nonzero and of opposite signs.
\<close>

lemma lte_cross:
  "lte a b =
     (if (denominator a < 0) \<noteq> (denominator b < 0) \<and> denominator a \<noteq> 0 \<and> denominator b \<noteq> 0
      then numerator b * denominator a \<le> numerator a * denominator b
      else numerator a * denominator b \<le> numerator b * denominator a)"
  by (auto simp: lte_def toPair_def Let_def)

lemma lte_represented:
  assumes "valid a" "valid b"
  shows "lte a b = (represented a \<le> represented b)"
proof -
  have da: "denominator a \<noteq> 0" and db: "denominator b \<noteq> 0"
    using assms by (simp_all add: valid_def)
  consider (pos) "denominator a * denominator b > 0" | (neg) "denominator a * denominator b < 0"
    using da db by (metis linorder_neqE_linordered_idom mult_eq_0_iff)
  then show ?thesis
  proof cases
    case pos
    then have same: "(denominator a < 0) = (denominator b < 0)"
      by (auto simp: zero_less_mult_iff)
    show ?thesis
      using pos same da db
      by (simp add: represented_def lte_cross mult_le_cancel_right)
  next
    case neg
    then have diff: "(denominator a < 0) \<noteq> (denominator b < 0)"
      by (auto simp: mult_less_0_iff)
    show ?thesis
      using neg diff da db
      by (simp add: represented_def lte_cross mult_le_cancel_right)
  qed
qed

lemma lt_represented:
  "valid a \<Longrightarrow> valid b \<Longrightarrow> lt a b = (represented a < represented b)"
  by (auto simp: lt_def lte_represented)

lemma eq_represented:
  "valid a \<Longrightarrow> valid b \<Longrightarrow> eq a b = (represented a = represented b)"
  by (auto simp: eq_def lte_represented)

lemma gt_represented:
  "valid a \<Longrightarrow> valid b \<Longrightarrow> gt a b = (represented b < represented a)"
  by (auto simp: gt_def lt_def lte_represented)

lemma represented_flip:
  "represented \<lparr>numerator = - numerator a, denominator = - denominator a\<rparr> = represented a"
  by (simp add: represented_def)

lemma valid_flip:
  "valid \<lparr>numerator = - numerator a, denominator = - denominator a\<rparr> = valid a"
  by (simp add: valid_def)

text \<open>
  C1. For valid instances \<open>a\<close> and \<open>b\<close>, \<^verbatim>\<open>a.lte(b)\<close> compares the cross products
  \<open>a.numerator * b.denominator\<close> and \<open>b.numerator * a.denominator\<close>, with the direction
  reversed exactly when exactly one of the two denominators is negative, and its result is
  the order of the represented rationals, whether or not the operands are reduced or have
  a positive denominator.
\<close>

theorem lte_sign_correction:
  assumes "valid a" and "valid b"
  shows "lte a b =
           (if (denominator a < 0) \<noteq> (denominator b < 0)
            then numerator a * denominator b \<ge> numerator b * denominator a
            else numerator a * denominator b \<le> numerator b * denominator a) \<and>
         lte a b = (represented a \<le> represented b)"
  using assms lte_represented [of a b]
  by (simp add: lte_cross valid_def)

theorem lte_sign_correction_witness:
  "valid \<lparr>numerator = 1, denominator = - 2\<rparr> \<and> valid \<lparr>numerator = 1, denominator = 3\<rparr> \<and>
   lte \<lparr>numerator = 1, denominator = - 2\<rparr> \<lparr>numerator = 1, denominator = 3\<rparr> \<and>
   represented \<lparr>numerator = 1, denominator = - 2\<rparr> \<le> represented \<lparr>numerator = 1, denominator = 3\<rparr>"
proof -
  have a: "valid \<lparr>numerator = 1, denominator = - 2\<rparr>" by (simp add: valid_def)
  have b: "valid \<lparr>numerator = 1, denominator = 3\<rparr>" by (simp add: valid_def)
  show ?thesis
    using a b lte_sign_correction [OF a b] by auto
qed

text \<open>
  C7. For valid instances \<open>a\<close> and \<open>b\<close>, exactly one of \<^verbatim>\<open>a.lt(b)\<close>, \<^verbatim>\<open>a.eq(b)\<close> and
  \<^verbatim>\<open>a.gt(b)\<close> holds. Each of the three is decided by the represented rationals alone, so
  negating both the numerator and the denominator of either operand changes none of them;
  in particular \<open>(1, 2)\<close> and \<open>(-1, -2)\<close> compare \<^verbatim>\<open>eq\<close>.
\<close>

theorem trichotomy:
  assumes "valid a" and "valid b"
  shows "((lt a b \<and> \<not> eq a b \<and> \<not> gt a b) \<or>
          (\<not> lt a b \<and> eq a b \<and> \<not> gt a b) \<or>
          (\<not> lt a b \<and> \<not> eq a b \<and> gt a b)) \<and>
         lt a b = (represented a < represented b) \<and>
         eq a b = (represented a = represented b) \<and>
         gt a b = (represented b < represented a) \<and>
         lt \<lparr>numerator = - numerator a, denominator = - denominator a\<rparr> b = lt a b \<and>
         eq \<lparr>numerator = - numerator a, denominator = - denominator a\<rparr> b = eq a b \<and>
         gt \<lparr>numerator = - numerator a, denominator = - denominator a\<rparr> b = gt a b \<and>
         lt a \<lparr>numerator = - numerator b, denominator = - denominator b\<rparr> = lt a b \<and>
         eq a \<lparr>numerator = - numerator b, denominator = - denominator b\<rparr> = eq a b \<and>
         gt a \<lparr>numerator = - numerator b, denominator = - denominator b\<rparr> = gt a b \<and>
         eq \<lparr>numerator = 1, denominator = 2\<rparr> \<lparr>numerator = - 1, denominator = - 2\<rparr>"
proof -
  let ?a = "\<lparr>numerator = - numerator a, denominator = - denominator a\<rparr>"
  let ?b = "\<lparr>numerator = - numerator b, denominator = - denominator b\<rparr>"
  have va: "valid ?a" and vb: "valid ?b"
    using assms by (simp_all add: valid_flip)
  have one: "(lt a b \<and> \<not> eq a b \<and> \<not> gt a b) \<or>
          (\<not> lt a b \<and> eq a b \<and> \<not> gt a b) \<or>
          (\<not> lt a b \<and> \<not> eq a b \<and> gt a b)"
    unfolding lt_represented [OF assms] eq_represented [OF assms] gt_represented [OF assms]
    by auto
  have ex: "eq \<lparr>numerator = 1, denominator = 2\<rparr> \<lparr>numerator = - 1, denominator = - 2\<rparr>"
    by (simp add: eq_def lte_cross)
  show ?thesis
    using one ex
    by (simp add: lt_represented eq_represented gt_represented assms va vb represented_flip)
qed

theorem trichotomy_witness:
  "valid \<lparr>numerator = 1, denominator = - 2\<rparr> \<and> valid \<lparr>numerator = 1, denominator = 3\<rparr> \<and>
   lt \<lparr>numerator = 1, denominator = - 2\<rparr> \<lparr>numerator = 1, denominator = 3\<rparr> \<and>
   \<not> eq \<lparr>numerator = 1, denominator = - 2\<rparr> \<lparr>numerator = 1, denominator = 3\<rparr> \<and>
   \<not> gt \<lparr>numerator = 1, denominator = - 2\<rparr> \<lparr>numerator = 1, denominator = 3\<rparr>"
proof -
  have a: "valid \<lparr>numerator = 1, denominator = - 2\<rparr>" by (simp add: valid_def)
  have b: "valid \<lparr>numerator = 1, denominator = 3\<rparr>" by (simp add: valid_def)
  have c: "lt \<lparr>numerator = 1, denominator = - 2\<rparr> \<lparr>numerator = 1, denominator = 3\<rparr>"
    by (simp add: lt_def lte_cross)
  show ?thesis
    using a b c trichotomy [OF a b] by blast
qed


section \<open>Arithmetic\<close>

text \<open>
  C6. For valid instances \<open>a\<close> and \<open>b\<close>, \<^verbatim>\<open>a.add(b)\<close> returns the instance with numerator
  \<open>b.numerator * a.denominator + a.numerator * b.denominator\<close> and denominator
  \<open>a.denominator * b.denominator\<close>, not reduced; \<open>(5, 2)\<close> plus \<open>(3, 4)\<close> is the pair
  \<open>(26, 8)\<close>.
\<close>

theorem add_cross_multiplies:
  assumes "valid a" and "valid b"
  shows "add a b =
           Inr \<lparr>numerator = numerator b * denominator a + numerator a * denominator b,
                denominator = denominator a * denominator b\<rparr> \<and>
         add \<lparr>numerator = 5, denominator = 2\<rparr> \<lparr>numerator = 3, denominator = 4\<rparr>
           = Inr \<lparr>numerator = 26, denominator = 8\<rparr>"
  using assms
  by (simp add: add_def toPair_def Let_def new_BigRational_def valid_def)

theorem add_cross_multiplies_witness:
  "valid \<lparr>numerator = 1, denominator = 2\<rparr> \<and> valid \<lparr>numerator = 1, denominator = - 2\<rparr> \<and>
   add \<lparr>numerator = 1, denominator = 2\<rparr> \<lparr>numerator = 1, denominator = - 2\<rparr>
     = Inr \<lparr>numerator = 0, denominator = - 4\<rparr>"
proof -
  have a: "valid \<lparr>numerator = 1, denominator = 2\<rparr>" by (simp add: valid_def)
  have b: "valid \<lparr>numerator = 1, denominator = - 2\<rparr>" by (simp add: valid_def)
  show ?thesis
    using a b add_cross_multiplies [OF a b] by simp
qed

text \<open>
  C3. \<^verbatim>\<open>inverse()\<close> fails with \<^verbatim>\<open>InvalidDenominator\<close> exactly when the numerator of
  the instance is zero, and otherwise returns the instance with numerator and denominator
  swapped. \<^verbatim>\<open>div(other)\<close> fails, with the same error, exactly when the numerator of
  \<open>other\<close> is zero. In both the failure is the one of a construction with a zero
  denominator. Dividing \<open>(5, 2)\<close> by \<open>(0, 5)\<close> fails with \<^verbatim>\<open>InvalidDenominator\<close>.
\<close>

theorem inverse_div_errors:
  assumes "valid a" and "valid b"
  shows "(inverse_br b = Inl InvalidDenominator \<longleftrightarrow> numerator b = 0) \<and>
         ((\<exists>e. inverse_br b = Inl e) \<longleftrightarrow> numerator b = 0) \<and>
         (numerator b \<noteq> 0 \<longrightarrow>
            inverse_br b = Inr \<lparr>numerator = denominator b, denominator = numerator b\<rparr>) \<and>
         (div_br a b = Inl InvalidDenominator \<longleftrightarrow> numerator b = 0) \<and>
         ((\<exists>e. div_br a b = Inl e) \<longleftrightarrow> numerator b = 0) \<and>
         (numerator b = 0 \<longrightarrow>
            inverse_br b = new_BigRational n 0 \<and> div_br a b = new_BigRational n 0) \<and>
         div_br \<lparr>numerator = 5, denominator = 2\<rparr> \<lparr>numerator = 0, denominator = 5\<rparr>
           = Inl InvalidDenominator"
  using assms
  by (simp add: inverse_br_def div_br_def mul_def and_then_def new_BigRational_def valid_def)

theorem inverse_div_errors_witness:
  "valid \<lparr>numerator = 2, denominator = 3\<rparr> \<and> valid \<lparr>numerator = 0, denominator = 5\<rparr> \<and>
   inverse_br \<lparr>numerator = 0, denominator = 5\<rparr> = Inl InvalidDenominator \<and>
   div_br \<lparr>numerator = 2, denominator = 3\<rparr> \<lparr>numerator = 0, denominator = 5\<rparr> = Inl InvalidDenominator \<and>
   inverse_br \<lparr>numerator = 2, denominator = 3\<rparr> = Inr \<lparr>numerator = 3, denominator = 2\<rparr>"
proof -
  have a: "valid \<lparr>numerator = 2, denominator = 3\<rparr>" by (simp add: valid_def)
  have b: "valid \<lparr>numerator = 0, denominator = 5\<rparr>" by (simp add: valid_def)
  show ?thesis
    using a b inverse_div_errors [OF a b] inverse_div_errors [OF b a] by simp
qed

text \<open>
  C8. For valid instances \<open>a\<close> and \<open>b\<close> with the numerator of \<open>b\<close> nonzero, the division
  \<^verbatim>\<open>a.div(b)\<close> succeeds, multiplying its result by \<open>b\<close> succeeds, and the product is
  \<^verbatim>\<open>eq\<close>-equal to \<open>a\<close>.
\<close>

theorem div_then_mul:
  assumes "valid a" and "valid b" and "numerator b \<noteq> 0"
  shows "\<exists>q p. div_br a b = Inr q \<and> mul q b = Inr p \<and> eq p a \<and> eq a p"
proof -
  have da: "denominator a \<noteq> 0" and db: "denominator b \<noteq> 0"
    using assms by (simp_all add: valid_def)
  let ?q = "\<lparr>numerator = denominator b * numerator a,
             denominator = numerator b * denominator a\<rparr>"
  let ?p = "\<lparr>numerator = numerator b * (denominator b * numerator a),
             denominator = denominator b * (numerator b * denominator a)\<rparr>"
  have q: "div_br a b = Inr ?q"
    using assms(3) da
    by (simp add: div_br_def inverse_br_def and_then_def mul_def new_BigRational_def)
  have p: "mul ?q b = Inr ?p"
    using assms(3) da db by (simp add: mul_def new_BigRational_def)
  have vp: "valid ?p"
    using assms(3) da db by (simp add: valid_def)
  have "represented ?p = represented a"
    using assms(3) da db by (simp add: represented_def eq_rat)
  then have "eq ?p a" "eq a ?p"
    using vp assms(1) by (simp_all add: eq_represented)
  with q p show ?thesis by blast
qed

theorem div_then_mul_witness:
  "valid \<lparr>numerator = 5, denominator = 2\<rparr> \<and> valid \<lparr>numerator = - 3, denominator = 4\<rparr> \<and>
   numerator \<lparr>numerator = - 3, denominator = 4\<rparr> \<noteq> 0 \<and>
   (\<exists>q p. div_br \<lparr>numerator = 5, denominator = 2\<rparr> \<lparr>numerator = - 3, denominator = 4\<rparr> = Inr q \<and>
          mul q \<lparr>numerator = - 3, denominator = 4\<rparr> = Inr p \<and>
          eq p \<lparr>numerator = 5, denominator = 2\<rparr>)"
proof -
  have a: "valid \<lparr>numerator = 5, denominator = 2\<rparr>" by (simp add: valid_def)
  have b: "valid \<lparr>numerator = - 3, denominator = 4\<rparr>" by (simp add: valid_def)
  have n: "numerator \<lparr>numerator = - 3, denominator = 4\<rparr> \<noteq> 0" by simp
  show ?thesis
    using a b n div_then_mul [OF a b n] by blast
qed


section \<open>Reduction\<close>

text \<open>
  A division by a nonzero divisor of the dividend is exact, so truncation plays no part
  in \<^verbatim>\<open>reduce\<close>, which on a valid instance returns the two exact quotients.
\<close>

lemma bigint_div_exact:
  assumes "g \<noteq> 0" "g dvd a"
  shows "bigint_div a g = Inr (a div g)"
proof -
  from assms(2) obtain k where k: "a = g * k" by (auto simp: dvd_def)
  have "sgn a * sgn g * (\<bar>a\<bar> div \<bar>g\<bar>) = (sgn g * sgn g) * (sgn k * \<bar>k\<bar>)"
    using assms(1) by (simp add: k sgn_mult abs_mult)
  also have "\<dots> = k"
    using assms(1) by (simp add: sgn_mult_self_eq mult_sgn_abs)
  finally show ?thesis
    using assms(1) by (simp add: bigint_div_def k)
qed

lemma gcd_br_pos: "valid r \<Longrightarrow> 0 < gcd_br (numerator r) (denominator r)"
  by (simp add: valid_def gcd_br_def big_integer_gcd_def gcd_pos_int)

lemma reduce_exact:
  assumes "valid r"
  shows "reduce r =
     Inr \<lparr>numerator = numerator r div gcd (numerator r) (denominator r),
          denominator = denominator r div gcd (numerator r) (denominator r)\<rparr>"
proof -
  let ?g = "gcd (numerator r) (denominator r)"
  have g: "?g \<noteq> 0" using assms by (simp add: valid_def)
  have n: "bigint_div (numerator r) ?g = Inr (numerator r div ?g)"
    using g by (intro bigint_div_exact) simp_all
  have d: "bigint_div (denominator r) ?g = Inr (denominator r div ?g)"
    using g by (intro bigint_div_exact) simp_all
  have nz: "denominator r div ?g \<noteq> 0"
    using assms by (simp add: valid_def dvd_div_eq_0_iff)
  show ?thesis
    by (simp add: reduce_def toPair_def gcd_br_def big_integer_gcd_def Let_def n d and_then_def
        new_BigRational_ok [OF nz])
qed

text \<open>
  C4. On every valid instance \<^verbatim>\<open>reduce()\<close> succeeds, and its result is \<^verbatim>\<open>eq\<close>-equal to
  the original; the reduction of \<open>(10, 20)\<close> is \<open>(1, 2)\<close>.
\<close>

theorem reduce_preserves_value:
  "(valid r \<longrightarrow> (\<exists>q. reduce r = Inr q \<and> valid q \<and> eq q r \<and> eq r q)) \<and>
   reduce \<lparr>numerator = 10, denominator = 20\<rparr> = Inr \<lparr>numerator = 1, denominator = 2\<rparr>"
proof (intro conjI impI)
  assume v: "valid r"
  let ?g = "gcd (numerator r) (denominator r)"
  let ?q = "\<lparr>numerator = numerator r div ?g, denominator = denominator r div ?g\<rparr>"
  have g: "?g \<noteq> 0" using v by (simp add: valid_def)
  have vq: "valid ?q" using v by (simp add: valid_def dvd_div_eq_0_iff)
  obtain k where k: "numerator r = ?g * k"
    using gcd_dvd1 [of "numerator r" "denominator r"] by (auto simp: dvd_def)
  obtain m where m: "denominator r = ?g * m"
    using gcd_dvd2 [of "numerator r" "denominator r"] by (auto simp: dvd_def)
  have "(numerator r div ?g) * denominator r = numerator r * (denominator r div ?g)"
    using g by (metis k m mult.assoc mult.commute nonzero_mult_div_cancel_left)
  then have "represented ?q = represented r"
    using v vq by (simp add: represented_def valid_def eq_rat)
  then have "eq ?q r" "eq r ?q"
    using v vq by (simp_all add: eq_represented)
  then show "\<exists>q. reduce r = Inr q \<and> valid q \<and> eq q r \<and> eq r q"
    using reduce_exact [OF v] vq by simp
next
  have "valid \<lparr>numerator = 10, denominator = 20\<rparr>" by (simp add: valid_def)
  from reduce_exact [OF this]
  show "reduce \<lparr>numerator = 10, denominator = 20\<rparr> = Inr \<lparr>numerator = 1, denominator = 2\<rparr>"
    by simp
qed


theorem reduce_preserves_value_witness:
  "valid \<lparr>numerator = 6, denominator = - 4\<rparr> \<and>
   (\<exists>q. reduce \<lparr>numerator = 6, denominator = - 4\<rparr> = Inr q \<and> valid q \<and>
        eq q \<lparr>numerator = 6, denominator = - 4\<rparr> \<and> eq \<lparr>numerator = 6, denominator = - 4\<rparr> q)"
proof -
  have v: "valid \<lparr>numerator = 6, denominator = - 4\<rparr>" by (simp add: valid_def)
  show ?thesis
    using v reduce_preserves_value [of "\<lparr>numerator = 6, denominator = - 4\<rparr>"] by blast
qed

text \<open>
  C9. On every valid instance the divisor used by \<^verbatim>\<open>reduce()\<close> is strictly positive, so
  the numerator and the denominator of the result have the signs of the original ones:
  the reduction of \<open>(-10, -20)\<close> is \<open>(-1, -2)\<close>. Reducing the result once more returns
  the same numerator and denominator.
\<close>

theorem reduce_keeps_signs:
  "(valid r \<longrightarrow>
      0 < gcd_br (numerator r) (denominator r) \<and>
      (\<exists>q. reduce r = Inr q \<and>
           sgn (numerator q) = sgn (numerator r) \<and>
           sgn (denominator q) = sgn (denominator r) \<and>
           reduce q = Inr q)) \<and>
   reduce \<lparr>numerator = - 10, denominator = - 20\<rparr> = Inr \<lparr>numerator = - 1, denominator = - 2\<rparr>"
proof (intro conjI impI)
  assume v: "valid r"
  show "0 < gcd_br (numerator r) (denominator r)"
    using v by (rule gcd_br_pos)
next
  assume v: "valid r"
  let ?g = "gcd (numerator r) (denominator r)"
  let ?q = "\<lparr>numerator = numerator r div ?g, denominator = denominator r div ?g\<rparr>"
  have g: "0 < ?g" using v by (simp add: valid_def gcd_pos_int)
  obtain k where k: "numerator r = ?g * k"
    using gcd_dvd1 [of "numerator r" "denominator r"] by (auto simp: dvd_def)
  obtain m where m: "denominator r = ?g * m"
    using gcd_dvd2 [of "numerator r" "denominator r"] by (auto simp: dvd_def)
  have nk: "numerator r div ?g = k"
    using g by (metis k less_irrefl nonzero_mult_div_cancel_left)
  have dm: "denominator r div ?g = m"
    using g by (metis m less_irrefl nonzero_mult_div_cancel_left)
  have sn: "sgn (numerator r div ?g) = sgn (numerator r)"
    using g by (subst (2) k) (simp add: nk sgn_mult)
  have sd: "sgn (denominator r div ?g) = sgn (denominator r)"
    using g by (subst (2) m) (simp add: dm sgn_mult)
  have vq: "valid ?q" using v by (simp add: valid_def dvd_div_eq_0_iff)
  have "coprime (numerator r div ?g) (denominator r div ?g)"
    using v by (intro div_gcd_coprime) (simp add: valid_def)
  then have one: "gcd (numerator r div ?g) (denominator r div ?g) = 1"
    by (simp add: coprime_iff_gcd_eq_1)
  have "reduce ?q = Inr ?q"
    using reduce_exact [OF vq] by (simp add: one)
  then show "\<exists>q. reduce r = Inr q \<and>
           sgn (numerator q) = sgn (numerator r) \<and>
           sgn (denominator q) = sgn (denominator r) \<and>
           reduce q = Inr q"
    using reduce_exact [OF v] sn sd by simp
next
  have "valid \<lparr>numerator = - 10, denominator = - 20\<rparr>" by (simp add: valid_def)
  from reduce_exact [OF this]
  show "reduce \<lparr>numerator = - 10, denominator = - 20\<rparr> = Inr \<lparr>numerator = - 1, denominator = - 2\<rparr>"
    by simp
qed

theorem reduce_keeps_signs_witness:
  "valid \<lparr>numerator = 6, denominator = - 4\<rparr> \<and>
   0 < gcd_br 6 (- 4) \<and>
   (\<exists>q. reduce \<lparr>numerator = 6, denominator = - 4\<rparr> = Inr q \<and>
        sgn (numerator q) = 1 \<and> sgn (denominator q) = - 1 \<and> reduce q = Inr q)"
proof -
  have v: "valid \<lparr>numerator = 6, denominator = - 4\<rparr>" by (simp add: valid_def)
  show ?thesis
    using v reduce_keeps_signs [of "\<lparr>numerator = 6, denominator = - 4\<rparr>"] by simp
qed


section \<open>Operations that cannot fail\<close>

text \<open>
  C5. On valid instances \<^verbatim>\<open>add\<close>, \<^verbatim>\<open>subtract\<close>, \<^verbatim>\<open>mul\<close>, \<^verbatim>\<open>abs\<close>, \<^verbatim>\<open>negate\<close> and
  \<^verbatim>\<open>reduce\<close> return an instance, which is valid again: none of them reaches the
  throwing branch of the constructor. The comparisons call neither the constructor nor a
  division; they are functions into \<^typ>\<open>bool\<close> and have no failing outcome at all.
\<close>

theorem total_operations:
  assumes "valid a" and "valid b"
  shows "(\<exists>r. add a b = Inr r \<and> valid r) \<and>
         (\<exists>r. subtract a b = Inr r \<and> valid r) \<and>
         (\<exists>r. mul a b = Inr r \<and> valid r) \<and>
         (\<exists>r. abs_br a = Inr r \<and> valid r) \<and>
         (\<exists>r. negate a = Inr r \<and> valid r) \<and>
         (\<exists>r. reduce a = Inr r \<and> valid r)"
proof -
  have da: "denominator a \<noteq> 0" and db: "denominator b \<noteq> 0"
    using assms by (simp_all add: valid_def)
  have "\<exists>r. add a b = Inr r \<and> valid r"
    using da db by (simp add: add_def toPair_def Let_def new_BigRational_def valid_def)
  moreover have "\<exists>r. subtract a b = Inr r \<and> valid r"
    using da db
    by (simp add: subtract_def negate_def and_then_def add_def toPair_def Let_def
        new_BigRational_def valid_def)
  moreover have "\<exists>r. mul a b = Inr r \<and> valid r"
    using da db by (simp add: mul_def new_BigRational_def valid_def)
  moreover have "\<exists>r. abs_br a = Inr r \<and> valid r"
    using da by (simp add: abs_br_def Let_def new_BigRational_def valid_def)
  moreover have "\<exists>r. negate a = Inr r \<and> valid r"
    using da by (simp add: negate_def new_BigRational_def valid_def)
  moreover have "\<exists>r. reduce a = Inr r \<and> valid r"
    using assms(1) by (simp add: reduce_exact valid_def dvd_div_eq_0_iff)
  ultimately show ?thesis by blast
qed

theorem total_operations_witness:
  "valid \<lparr>numerator = 0, denominator = - 3\<rparr> \<and> valid \<lparr>numerator = 7, denominator = 2\<rparr> \<and>
   (\<exists>r. add \<lparr>numerator = 0, denominator = - 3\<rparr> \<lparr>numerator = 7, denominator = 2\<rparr> = Inr r) \<and>
   (\<exists>r. subtract \<lparr>numerator = 0, denominator = - 3\<rparr> \<lparr>numerator = 7, denominator = 2\<rparr> = Inr r) \<and>
   (\<exists>r. mul \<lparr>numerator = 0, denominator = - 3\<rparr> \<lparr>numerator = 7, denominator = 2\<rparr> = Inr r) \<and>
   (\<exists>r. abs_br \<lparr>numerator = 0, denominator = - 3\<rparr> = Inr r) \<and>
   (\<exists>r. negate \<lparr>numerator = 0, denominator = - 3\<rparr> = Inr r) \<and>
   (\<exists>r. reduce \<lparr>numerator = 0, denominator = - 3\<rparr> = Inr r)"
proof -
  have a: "valid \<lparr>numerator = 0, denominator = - 3\<rparr>" by (simp add: valid_def)
  have b: "valid \<lparr>numerator = 7, denominator = 2\<rparr>" by (simp add: valid_def)
  show ?thesis
    using a b total_operations [OF a b] by blast
qed

text \<open>
  C10. For every valid instance \<open>r\<close>, \<^verbatim>\<open>r.abs()\<close> is an instance with a numerator that
  is not negative and a strictly positive denominator. It is never negative in the sense
  of \<^verbatim>\<open>isNegative\<close>, and it is positive in the sense of \<^verbatim>\<open>isPositive\<close> exactly when the
  numerator of \<open>r\<close> is nonzero.
\<close>

theorem abs_sign:
  assumes "valid r"
  shows "\<exists>q. abs_br r = Inr q \<and> 0 \<le> numerator q \<and> 0 < denominator q \<and>
             \<not> isNegative q \<and> (isPositive q \<longleftrightarrow> numerator r \<noteq> 0)"
  using assms
  by (auto simp: abs_br_def Let_def new_BigRational_def valid_def isNegative_def isPositive_def)

theorem abs_sign_witness:
  "valid \<lparr>numerator = - 5, denominator = - 2\<rparr> \<and>
   (\<exists>q. abs_br \<lparr>numerator = - 5, denominator = - 2\<rparr> = Inr q \<and> 0 \<le> numerator q \<and>
        0 < denominator q \<and> \<not> isNegative q \<and> isPositive q)"
proof -
  have v: "valid \<lparr>numerator = - 5, denominator = - 2\<rparr>" by (simp add: valid_def)
  show ?thesis
    using v abs_sign [OF v] by simp
qed

end
